theory Spec2Isabelle
  imports Main "HOL-Library.AList" "HOL-Library.Multiset"
begin

section \<open>LoadLoad: a round-robin load balancer with sticky sessions\<close>

text \<open>
  A shallow embedding of \<^verbatim>\<open>src/loadbalancer.py\<close>. The balancer object holds a list of
  references to \<^verbatim>\<open>Server\<close> objects, a cursor and a dictionary from session identifiers to
  \<^verbatim>\<open>Server\<close> references. The health flag of a \<^verbatim>\<open>Server\<close> is mutated through one reference
  and read through another (the pool and the sticky table share the objects), so the
  objects live in an explicit store and the pool and the table hold addresses.
  Every method becomes a function from the state before the call to the result and the
  state after it. The HTTP client (\<^verbatim>\<open>self.session\<close>) is a parameter: a function from the
  outbound call to either the exception it raises or the response it delivers.
\<close>

subsection \<open>Data model\<close>

text \<open>\<^verbatim>\<open>@dataclass class Server\<close>: host, port and the mutable flag.\<close>

record Server =
  host :: string
  port :: int
  is_healthy :: bool

type_synonym ref = nat

text \<open>
  \<^verbatim>\<open>LoadLoad.__init__\<close>: \<^verbatim>\<open>servers\<close>, \<^verbatim>\<open>current_index\<close> and \<^verbatim>\<open>sticky_sessions\<close>; \<open>heap\<close> is
  the store the references point into. Python's \<^verbatim>\<open>int\<close> is unbounded, hence \<open>int\<close>.
\<close>

record LoadLoad =
  heap :: "ref \<Rightarrow> Server"
  servers :: "ref list"
  current_index :: int
  sticky_sessions :: "string \<rightharpoonup> ref"

definition init :: "(ref \<Rightarrow> Server) \<Rightarrow> ref list \<Rightarrow> LoadLoad" where
  "init h pool = \<lparr>heap = h, servers = pool, current_index = 0, sticky_sessions = Map.empty\<rparr>"

text \<open>
  An exception raised by the HTTP client or while reading the inbound body: the
  subclasses of \<^verbatim>\<open>Exception\<close>, which is what the \<^verbatim>\<open>except Exception\<close> clauses of the source
  catch.
\<close>

datatype exn = TimeoutError | ClientConnectionError | ClientPayloadError | OtherError string

text \<open>
  The inbound \<^verbatim>\<open>web.Request\<close>, as far as the handler reads it. \<open>http_method\<close> is
  \<^verbatim>\<open>request.method\<close>; \<open>headers\<close> is what
  \<^verbatim>\<open>request.headers.items()\<close> yields: the header lines in order, a name possibly repeated
  (the headers of a request are a multi-dictionary). \<open>read_body\<close> is the outcome of
  \<^verbatim>\<open>await request.read()\<close>.
\<close>

record Request =
  http_method :: string
  path_qs :: string
  headers :: "(string \<times> string) list"
  cookies :: "string \<rightharpoonup> string"
  remote :: "string option"
  body_exists :: bool
  read_body :: "exn + string"

text \<open>The arguments of \<^verbatim>\<open>self.session.request(method=, url=, headers=, data=)\<close>.\<close>

record ClientRequest =
  out_method :: string
  out_url :: string
  out_headers :: "(string \<times> string) list"
  out_data :: "string option"

text \<open>
  What the client delivers on success: \<^verbatim>\<open>response.status\<close>, the header lines of
  \<^verbatim>\<open>response.headers\<close> (again a multi-dictionary) and the bytes of \<^verbatim>\<open>response.read()\<close>.
\<close>

record ClientResponse =
  cr_status :: int
  cr_headers :: "(string \<times> string) list"
  cr_body :: string

text \<open>The \<^verbatim>\<open>web.Response\<close> the handler returns: its body, status and \<^verbatim>\<open>headers\<close> argument.\<close>

record Response =
  body :: string
  status :: int
  resp_headers :: "(string \<times> string) list"

subsection \<open>Strings\<close>

text \<open>\<^verbatim>\<open>str(n)\<close> for the port in the f-string of \<^verbatim>\<open>Server.url\<close>.\<close>

fun digits :: "nat \<Rightarrow> string" where
  "digits n = (if n < 10 then [''0123456789'' ! n]
               else digits (n div 10) @ [''0123456789'' ! (n mod 10)])"

declare digits.simps [simp del]

definition str_int :: "int \<Rightarrow> string" where
  "str_int i = (if i < 0 then CHR ''-'' # digits (nat (- i)) else digits (nat i))"

definition url :: "Server \<Rightarrow> string" where
  "url s = ''http://'' @ host s @ '':'' @ str_int (port s)"

text \<open>
  \<^verbatim>\<open>k.lower()\<close> on the letters A to Z; every other byte is left as it is (no character
  outside A-Z lowercases to one of h, o, s, t).
\<close>

definition lower_char :: "char \<Rightarrow> char" where
  "lower_char c =
     (case map_of (zip ''ABCDEFGHIJKLMNOPQRSTUVWXYZ'' ''abcdefghijklmnopqrstuvwxyz'') c of
        Some c' \<Rightarrow> c'
      | None \<Rightarrow> c)"

definition lower :: "string \<Rightarrow> string" where
  "lower k = map lower_char k"

subsection \<open>Session identifier and selection\<close>

text \<open>
  \<^verbatim>\<open>_get_session_id\<close>: the cookie when it is present and not empty, else
  \<^verbatim>\<open>request.remote\<close> (which may be \<^verbatim>\<open>None\<close>).
\<close>

definition get_session_id :: "Request \<Rightarrow> string option" where
  "get_session_id request =
     (case cookies request ''session_id'' of
        Some session_id \<Rightarrow> if session_id \<noteq> [] then Some session_id else remote request
      | None \<Rightarrow> remote request)"

text \<open>\<^verbatim>\<open>[s for s in self.servers if s.is_healthy]\<close>\<close>

definition healthy_servers :: "LoadLoad \<Rightarrow> ref list" where
  "healthy_servers s = filter (\<lambda>r. is_healthy (heap s r)) (servers s)"

text \<open>
  \<^verbatim>\<open>_round_robin\<close>: returns \<^verbatim>\<open>None\<close> before touching the cursor when nothing is healthy.
  Python's \<^verbatim>\<open>%\<close> with a positive divisor is \<open>mod\<close> on \<open>int\<close>: the index is in range.
\<close>

definition round_robin :: "LoadLoad \<Rightarrow> ref option \<times> LoadLoad" where
  "round_robin s =
     (let hs = healthy_servers s in
      if hs = [] then (None, s)
      else (Some (hs ! nat (current_index s mod int (length hs))),
            s\<lparr>current_index := current_index s + 1\<rparr>))"

text \<open>The second half of \<^verbatim>\<open>_get_server\<close>: select, and record the selection if there is one.\<close>

definition assign :: "string \<Rightarrow> LoadLoad \<Rightarrow> ref option \<times> LoadLoad" where
  "assign session_id s =
     (case round_robin s of
        (Some server, s') \<Rightarrow>
          (Some server, s'\<lparr>sticky_sessions := (sticky_sessions s')(session_id \<mapsto> server)\<rparr>)
      | (None, s') \<Rightarrow> (None, s'))"

text \<open>\<^verbatim>\<open>_get_server\<close>: hit, or delete the stale entry and fall through, or miss.\<close>

definition get_server :: "string \<Rightarrow> LoadLoad \<Rightarrow> ref option \<times> LoadLoad" where
  "get_server session_id s =
     (case sticky_sessions s session_id of
        Some server \<Rightarrow>
          if is_healthy (heap s server) then (Some server, s)
          else assign session_id (s\<lparr>sticky_sessions := (sticky_sessions s)(session_id := None)\<rparr>)
      | None \<Rightarrow> assign session_id s)"

text \<open>\<open>n\<close> consecutive calls of \<^verbatim>\<open>_round_robin\<close>, nothing in between.\<close>

fun round_robin_calls :: "nat \<Rightarrow> LoadLoad \<Rightarrow> ref option list \<times> LoadLoad" where
  "round_robin_calls 0 s = ([], s)"
| "round_robin_calls (Suc n) s =
     (case round_robin s of (r, s') \<Rightarrow>
        (case round_robin_calls n s' of (rs, s'') \<Rightarrow> (r # rs, s'')))"

subsection \<open>Health check\<close>

text \<open>
  \<^verbatim>\<open>_check_health\<close>: \<open>get\<close> is \<^verbatim>\<open>self.session.get(url, timeout=5)\<close>, which raises or delivers
  a status. The flag is written through the reference.
\<close>

definition set_healthy :: "ref \<Rightarrow> bool \<Rightarrow> LoadLoad \<Rightarrow> LoadLoad" where
  "set_healthy server b s = s\<lparr>heap := (heap s)(server := (heap s server)\<lparr>is_healthy := b\<rparr>)\<rparr>"

definition check_health :: "(string \<Rightarrow> exn + int) \<Rightarrow> ref \<Rightarrow> LoadLoad \<Rightarrow> LoadLoad" where
  "check_health get server s =
     (case get (url (heap s server) @ ''/health'') of
        Inr response_status \<Rightarrow> set_healthy server (response_status = 200) s
      | Inl e \<Rightarrow> set_healthy server False s)"

text \<open>One pass of the \<^verbatim>\<open>for\<close> loop in \<^verbatim>\<open>_health_check_loop\<close>.\<close>

definition health_check_tick :: "(string \<Rightarrow> exn + int) \<Rightarrow> LoadLoad \<Rightarrow> LoadLoad" where
  "health_check_tick get s = fold (check_health get) (servers s) s"

text \<open>
  The HTTP meaning of "a success status code" (the 2xx class), for comparison with the
  test \<^verbatim>\<open>response.status == 200\<close> of the code.
\<close>

definition spec_success_status :: "int \<Rightarrow> bool" where
  "spec_success_status st = (200 \<le> st \<and> st < 300)"

subsection \<open>Request handling\<close>

text \<open>
  \<^verbatim>\<open>{k: v for k, v in request.headers.items() if k.lower() != 'host'}\<close>: a dictionary is
  built by assignment, pair after pair. Assigning to a key that is already there replaces
  its value in place, a new key goes to the end: \<open>AList.update\<close>.
\<close>

definition forward_headers :: "(string \<times> string) list \<Rightarrow> (string \<times> string) list" where
  "forward_headers items =
     fold (\<lambda>(k, v) d. if lower k \<noteq> ''host'' then AList.update k v d else d) items []"

text \<open>
  \<^verbatim>\<open>response.headers[k]\<close> on a case-insensitive multi-dictionary: the value of the first line
  whose name is \<open>k\<close> up to letter case.
\<close>

fun getone :: "(string \<times> string) list \<Rightarrow> string \<Rightarrow> string option" where
  "getone [] k = None"
| "getone ((k', v) # items) k = (if lower k' = lower k then Some v else getone items k)"

text \<open>
  \<^verbatim>\<open>dict(response.headers)\<close>: \<^verbatim>\<open>dict\<close> of an object with \<^verbatim>\<open>keys()\<close> assigns \<^verbatim>\<open>d[k] = obj[k]\<close>
  for every key that \<^verbatim>\<open>keys()\<close> yields (one per header line). Indexing with a key that
  \<^verbatim>\<open>keys()\<close> yielded cannot raise \<^verbatim>\<open>KeyError\<close>: the \<open>None\<close> branch is never taken.
\<close>

definition dict_of_headers :: "(string \<times> string) list \<Rightarrow> (string \<times> string) list" where
  "dict_of_headers items =
     fold (\<lambda>(k, v) d. AList.update k (case getone items k of Some v' \<Rightarrow> v' | None \<Rightarrow> v) d) items []"

definition no_servers_available :: Response where
  "no_servers_available = \<lparr>body = ''No servers available'', status = 503, resp_headers = []\<rparr>"

definition backend_error :: Response where
  "backend_error = \<lparr>body = ''Backend error'', status = 502, resp_headers = []\<rparr>"

text \<open>The first statement of \<^verbatim>\<open>handle_request\<close>: which selection runs.\<close>

definition select_server :: "Request \<Rightarrow> LoadLoad \<Rightarrow> ref option \<times> LoadLoad" where
  "select_server request s =
     (case get_session_id request of
        Some session_id \<Rightarrow> if session_id \<noteq> [] then get_server session_id s else round_robin s
      | None \<Rightarrow> round_robin s)"

text \<open>
  The keyword arguments of \<^verbatim>\<open>self.session.request\<close>, evaluated inside the \<^verbatim>\<open>try\<close>:
  \<^verbatim>\<open>await request.read()\<close> may raise before any call is made.
\<close>

definition outbound :: "Server \<Rightarrow> Request \<Rightarrow> exn + ClientRequest" where
  "outbound server request =
     (case (if body_exists request
            then (case read_body request of Inl e \<Rightarrow> Inl e | Inr b \<Rightarrow> Inr (Some b))
            else Inr None) of
        Inl e \<Rightarrow> Inl e
      | Inr data \<Rightarrow>
          Inr \<lparr>out_method = http_method request,
               out_url = url server @ path_qs request,
               out_headers = forward_headers (headers request),
               out_data = data\<rparr>)"

text \<open>
  The \<^verbatim>\<open>try\<close> block of \<^verbatim>\<open>handle_request\<close> for a selected server: the response and the
  outbound calls that were issued.
\<close>

definition proxy :: "(ClientRequest \<Rightarrow> exn + ClientResponse) \<Rightarrow> Server \<Rightarrow> Request
                      \<Rightarrow> Response \<times> ClientRequest list" where
  "proxy net server request =
     (case outbound server request of
        Inl e \<Rightarrow> (backend_error, [])
      | Inr call \<Rightarrow>
          (case net call of
             Inl e \<Rightarrow> (backend_error, [call])
           | Inr response \<Rightarrow>
               (\<lparr>body = cr_body response, status = cr_status response,
                 resp_headers = dict_of_headers (cr_headers response)\<rparr>, [call])))"

text \<open>\<^verbatim>\<open>handle_request\<close>: the response, the outbound calls issued, the state afterwards.\<close>

definition handle_request :: "(ClientRequest \<Rightarrow> exn + ClientResponse) \<Rightarrow> Request \<Rightarrow> LoadLoad
                               \<Rightarrow> Response \<times> ClientRequest list \<times> LoadLoad" where
  "handle_request net request s =
     (case select_server request s of
        (None, s') \<Rightarrow> (no_servers_available, [], s')
      | (Some server, s') \<Rightarrow>
          (case proxy net (heap s' server) request of (response, calls) \<Rightarrow> (response, calls, s')))"

subsection \<open>Runs of the balancer\<close>

text \<open>The operations that touch the state, and a run of them from a start state.\<close>

datatype op =
    RoundRobin
  | GetServer string
  | CheckHealth "string \<Rightarrow> exn + int" ref
  | HealthCheckTick "string \<Rightarrow> exn + int"
  | HandleRequest "ClientRequest \<Rightarrow> exn + ClientResponse" Request

fun step :: "op \<Rightarrow> LoadLoad \<Rightarrow> LoadLoad" where
  "step RoundRobin s = snd (round_robin s)"
| "step (GetServer session_id) s = snd (get_server session_id s)"
| "step (CheckHealth get server) s = check_health get server s"
| "step (HealthCheckTick get) s = health_check_tick get s"
| "step (HandleRequest net request) s = snd (snd (handle_request net request s))"

definition run :: "op list \<Rightarrow> LoadLoad \<Rightarrow> LoadLoad" where
  "run ops s = fold step ops s"

text \<open>The pool of the source: \<^verbatim>\<open>SERVERS\<close>, three servers on localhost, all healthy.\<close>

definition SERVERS_heap :: "ref \<Rightarrow> Server" where
  "SERVERS_heap r = \<lparr>host = ''localhost'', port = 8001 + int r, is_healthy = True\<rparr>"

definition SERVERS :: "ref list" where
  "SERVERS = [0, 1, 2]"

text \<open>The same pool with every server marked unhealthy.\<close>

definition SERVERS_down :: "ref \<Rightarrow> Server" where
  "SERVERS_down r = \<lparr>host = ''localhost'', port = 8001 + int r, is_healthy = False\<rparr>"

text \<open>Health endpoints: one that answers with a given status, one that times out.\<close>

definition probe_status :: "int \<Rightarrow> string \<Rightarrow> exn + int" where
  "probe_status st u = Inr st"

definition probe_timeout :: "string \<Rightarrow> exn + int" where
  "probe_timeout u = Inl TimeoutError"

text \<open>Backends: one that answers every call with a given response, one that refuses.\<close>

definition net_respond :: "ClientResponse \<Rightarrow> ClientRequest \<Rightarrow> exn + ClientResponse" where
  "net_respond response call = Inr response"

definition net_refuse :: "ClientRequest \<Rightarrow> exn + ClientResponse" where
  "net_refuse call = Inl ClientConnectionError"

text \<open>
  A \<^verbatim>\<open>GET /\<close> with the given header lines, cookie and client address, and no body.
\<close>

definition get_request :: "(string \<times> string) list \<Rightarrow> string option \<Rightarrow> string option \<Rightarrow> Request" where
  "get_request hs cookie addr =
     \<lparr>http_method = ''GET'', path_qs = ''/'', headers = hs,
      cookies = (case cookie of None \<Rightarrow> Map.empty | Some v \<Rightarrow> [''session_id'' \<mapsto> v]),
      remote = addr, body_exists = False, read_body = Inr []\<rparr>"

text \<open>
  The headers the specification asks for on the outbound request: the inbound header
  lines without those named Host in any letter case, for comparison with
  \<open>forward_headers\<close>.
\<close>

definition spec_forward_headers :: "(string \<times> string) list \<Rightarrow> (string \<times> string) list" where
  "spec_forward_headers items = filter (\<lambda>(k, v). lower k \<noteq> ''host'') items"

subsection \<open>Selection\<close>

lemma healthy_servers_cursor [simp]:
  "healthy_servers (s\<lparr>current_index := c\<rparr>) = healthy_servers s"
  by (simp add: healthy_servers_def)

lemma healthy_servers_sticky [simp]:
  "healthy_servers (s\<lparr>sticky_sessions := t\<rparr>) = healthy_servers s"
  by (simp add: healthy_servers_def)

lemma healthy_servers_subset: "set (healthy_servers s) \<subseteq> set (servers s)"
  by (auto simp: healthy_servers_def)

lemma healthy_servers_healthy: "r \<in> set (healthy_servers s) \<Longrightarrow> is_healthy (heap s r)"
  by (simp add: healthy_servers_def)

lemma round_robin_none: "healthy_servers s = [] \<Longrightarrow> round_robin s = (None, s)"
  by (simp add: round_robin_def)

lemma round_robin_some:
  "healthy_servers s \<noteq> [] \<Longrightarrow>
   round_robin s =
     (Some (healthy_servers s ! nat (current_index s mod int (length (healthy_servers s)))),
      s\<lparr>current_index := current_index s + 1\<rparr>)"
  by (simp add: round_robin_def Let_def)

lemma round_robin_index: "hs \<noteq> [] \<Longrightarrow> nat (c mod int (length hs)) < length hs"
  by (simp add: nat_less_iff)

lemma round_robin_selects:
  assumes "healthy_servers s \<noteq> []"
  shows "healthy_servers s ! nat (current_index s mod int (length (healthy_servers s)))
         \<in> set (healthy_servers s)"
  using round_robin_index [OF assms] by (rule nth_mem)

lemma round_robin_calls_upto:
  "healthy_servers s \<noteq> [] \<Longrightarrow>
   round_robin_calls k s =
     (map (\<lambda>i. Some (healthy_servers s !
               nat ((current_index s + int i) mod int (length (healthy_servers s))))) [0..<k],
      s\<lparr>current_index := current_index s + int k\<rparr>)"
proof (induction k arbitrary: s)
  case 0
  then show ?case by simp
next
  case (Suc k)
  let ?s' = "s\<lparr>current_index := current_index s + 1\<rparr>"
  have h: "healthy_servers ?s' \<noteq> []" using Suc.prems by simp
  have "[0..<Suc k] = 0 # map Suc [0..<k]"
    by (simp add: upt_conv_Cons map_Suc_upt del: upt_Suc)
  then show ?case
    using Suc.IH [OF h] Suc.prems
    by (simp add: round_robin_some o_def ac_simps del: upt_Suc)
qed

lemma cyclic_reads_rotate:
  assumes "hs \<noteq> []"
  shows "map (\<lambda>i. hs ! nat ((c + int i) mod int (length hs))) [0..<length hs]
         = rotate (nat (c mod int (length hs))) hs"
proof (rule nth_equalityI)
  show "length (map (\<lambda>i. hs ! nat ((c + int i) mod int (length hs))) [0..<length hs])
        = length (rotate (nat (c mod int (length hs))) hs)"
    by simp
next
  fix i
  assume "i < length (map (\<lambda>i. hs ! nat ((c + int i) mod int (length hs))) [0..<length hs])"
  then have i: "i < length hs" by simp
  let ?n = "int (length hs)"
  have n: "0 < ?n" using assms by simp
  have "(c + int i) mod ?n = (c mod ?n + int i) mod ?n"
    by (simp add: mod_add_left_eq)
  also have "\<dots> = int ((nat (c mod ?n) + i) mod length hs)"
    using n by (simp add: zmod_int)
  finally have "nat ((c + int i) mod ?n) = (nat (c mod ?n) + i) mod length hs"
    by simp
  then show "map (\<lambda>i. hs ! nat ((c + int i) mod int (length hs))) [0..<length hs] ! i
             = rotate (nat (c mod int (length hs))) hs ! i"
    using i by (simp add: nth_rotate)
qed

lemma mset_rotate1_eq: "mset (rotate1 xs) = mset xs"
  by (cases xs) simp_all

lemma mset_rotate_eq: "mset (rotate n xs) = mset xs"
  by (induction n) (simp_all add: mset_rotate1_eq)

text \<open>
  C1, round-robin fairness. Let \<open>N\<close> be the number of healthy servers, that is, of the
  positions of the pool whose server has its flag set. \<open>N\<close> consecutive calls of
  \<^verbatim>\<open>_round_robin\<close>, with nothing in between, return these servers in pool order, rotated
  so that the first one is \<open>healthy[cursor mod N]\<close>; the cursor has advanced by \<open>N\<close> and
  nothing else has changed. The servers returned are exactly the servers of the pool
  that are healthy: no call fails and no unhealthy server is returned. As a multiset the
  results are the healthy positions of the pool, each exactly once; when the pool lists
  no server twice, no server is returned twice.
\<close>

theorem round_robin_fairness:
  "healthy_servers s = filter (\<lambda>server. is_healthy (heap s server)) (servers s)
   \<and> round_robin_calls (length (healthy_servers s)) s =
       (map Some (rotate (nat (current_index s mod int (length (healthy_servers s))))
                         (filter (\<lambda>server. is_healthy (heap s server)) (servers s))),
        s\<lparr>current_index := current_index s + int (length (healthy_servers s))\<rparr>)
   \<and> mset (fst (round_robin_calls (length (healthy_servers s)) s))
       = mset (map Some (filter (\<lambda>server. is_healthy (heap s server)) (servers s)))
   \<and> set (fst (round_robin_calls (length (healthy_servers s)) s))
       = Some ` {server \<in> set (servers s). is_healthy (heap s server)}
   \<and> (distinct (servers s) \<longrightarrow>
        distinct (fst (round_robin_calls (length (healthy_servers s)) s)))"
proof -
  let ?hs = "healthy_servers s"
  let ?k = "nat (current_index s mod int (length ?hs))"
  have filtered: "?hs = filter (\<lambda>server. is_healthy (heap s server)) (servers s)"
    by (simp add: healthy_servers_def)
  have calls: "round_robin_calls (length ?hs) s =
       (map Some (rotate ?k ?hs), s\<lparr>current_index := current_index s + int (length ?hs)\<rparr>)"
  proof (cases "?hs = []")
    case True
    then show ?thesis by simp
  next
    case False
    have "map (\<lambda>i. Some (?hs ! nat ((current_index s + int i) mod int (length ?hs))))
              [0..<length ?hs]
          = map Some (map (\<lambda>i. ?hs ! nat ((current_index s + int i) mod int (length ?hs)))
              [0..<length ?hs])"
      by (simp add: o_def)
    also have "\<dots> = map Some (rotate ?k ?hs)"
      by (simp only: cyclic_reads_rotate [OF False])
    finally show ?thesis
      by (simp only: round_robin_calls_upto [OF False])
  qed
  then have results: "fst (round_robin_calls (length ?hs) s) = map Some (rotate ?k ?hs)"
    by simp
  have bag: "mset (fst (round_robin_calls (length ?hs) s)) = mset (map Some ?hs)"
    unfolding results by (simp only: mset_map mset_rotate_eq)
  have members: "set (fst (round_robin_calls (length ?hs) s))
                 = Some ` {server \<in> set (servers s). is_healthy (heap s server)}"
    unfolding results by (simp add: filtered)
  have once: "distinct (servers s) \<longrightarrow> distinct (fst (round_robin_calls (length ?hs) s))"
    unfolding results by (simp add: filtered distinct_map)
  show ?thesis
    using filtered calls bag members once by simp
qed

text \<open>
  The pool of the source with server 1 down and the cursor at 3: two calls return the
  servers 2 and 0, and never server 1. With all three servers up and the cursor at 4,
  three calls return the servers 1, 2, 0.
\<close>

theorem round_robin_fairness_witness:
  "round_robin_calls 2 (init (SERVERS_heap(1 := SERVERS_down 1)) SERVERS\<lparr>current_index := 3\<rparr>) =
     ([Some 2, Some 0], init (SERVERS_heap(1 := SERVERS_down 1)) SERVERS\<lparr>current_index := 5\<rparr>)
   \<and> distinct (fst (round_robin_calls 2
        (init (SERVERS_heap(1 := SERVERS_down 1)) SERVERS\<lparr>current_index := 3\<rparr>)))
   \<and> round_robin_calls 3 (init SERVERS_heap SERVERS\<lparr>current_index := 4\<rparr>) =
     ([Some 1, Some 2, Some 0], init SERVERS_heap SERVERS\<lparr>current_index := 7\<rparr>)"
proof -
  have down: "healthy_servers (init (SERVERS_heap(1 := SERVERS_down 1)) SERVERS\<lparr>current_index := 3\<rparr>)
              = [0, 2]"
    by (simp add: healthy_servers_def init_def SERVERS_def SERVERS_heap_def SERVERS_down_def)
  have up: "healthy_servers (init SERVERS_heap SERVERS\<lparr>current_index := 4\<rparr>) = [0, 1, 2]"
    by (simp add: healthy_servers_def init_def SERVERS_def SERVERS_heap_def)
  have pool: "distinct (servers (init (SERVERS_heap(1 := SERVERS_down 1)) SERVERS\<lparr>current_index := 3\<rparr>))"
    by (simp add: init_def SERVERS_def)
  have two: "length [0::nat, 2] = 2" and three: "length [0::nat, 1, 2] = 3"
    by simp_all
  note a = round_robin_fairness
    [of "init (SERVERS_heap(1 := SERVERS_down 1)) SERVERS\<lparr>current_index := 3\<rparr>",
     unfolded down two]
  note b = round_robin_fairness [of "init SERVERS_heap SERVERS\<lparr>current_index := 4\<rparr>",
     unfolded up three]
  have first: "round_robin_calls 2
        (init (SERVERS_heap(1 := SERVERS_down 1)) SERVERS\<lparr>current_index := 3\<rparr>) =
     ([Some 2, Some 0], init (SERVERS_heap(1 := SERVERS_down 1)) SERVERS\<lparr>current_index := 5\<rparr>)"
    using a [THEN conjunct2, THEN conjunct1]
    by (simp add: init_def SERVERS_def SERVERS_heap_def SERVERS_down_def)
  have second: "round_robin_calls 3 (init SERVERS_heap SERVERS\<lparr>current_index := 4\<rparr>) =
     ([Some 1, Some 2, Some 0], init SERVERS_heap SERVERS\<lparr>current_index := 7\<rparr>)"
    using b [THEN conjunct2, THEN conjunct1]
    by (simp add: init_def SERVERS_def SERVERS_heap_def)
  have third: "distinct (fst (round_robin_calls 2
        (init (SERVERS_heap(1 := SERVERS_down 1)) SERVERS\<lparr>current_index := 3\<rparr>)))"
    using a pool by blast
  show ?thesis
    using first second third by simp
qed

text \<open>
  C5, cursor drift. The claim says that every call of \<^verbatim>\<open>_round_robin\<close> increments the
  cursor, also a call that finds no healthy server. The code returns \<^verbatim>\<open>None\<close> before the
  increment: with every server down the call fails and the cursor stays where it was.
\<close>

theorem cursor_drift_counterexample:
  "fst (round_robin (init SERVERS_down SERVERS)) = None
   \<and> current_index (snd (round_robin (init SERVERS_down SERVERS)))
       = current_index (init SERVERS_down SERVERS)
   \<and> current_index (snd (round_robin (init SERVERS_down SERVERS)))
       \<noteq> current_index (init SERVERS_down SERVERS) + 1"
  by (simp add: round_robin_def healthy_servers_def init_def SERVERS_def SERVERS_down_def)

text \<open>
  C5 as amended: a call of \<^verbatim>\<open>_round_robin\<close> that returns a server increments the cursor by
  exactly one, whatever the size of the healthy set; a call that returns nothing (the
  healthy set is empty) leaves the cursor, and the whole state, unchanged. Nothing but the
  cursor ever changes.
\<close>

theorem cursor_advances_on_selection:
  "(fst (round_robin s) = None) = (healthy_servers s = [])
   \<and> snd (round_robin s) =
       (if fst (round_robin s) = None then s
        else s\<lparr>current_index := current_index s + 1\<rparr>)"
  by (simp add: round_robin_def Let_def)

theorem cursor_advances_on_selection_witness:
  "fst (round_robin (init SERVERS_heap SERVERS)) = Some 0
   \<and> current_index (snd (round_robin (init SERVERS_heap SERVERS))) = 1"
  using cursor_advances_on_selection [of "init SERVERS_heap SERVERS"]
  by (simp add: round_robin_def healthy_servers_def init_def SERVERS_def SERVERS_heap_def)

subsection \<open>Sticky sessions\<close>

lemma assign_none:
  "healthy_servers s = [] \<Longrightarrow> assign session_id s = (None, s)"
  by (simp add: assign_def round_robin_none)

lemma assign_some:
  "healthy_servers s \<noteq> [] \<Longrightarrow>
   assign session_id s =
     (Some (healthy_servers s ! nat (current_index s mod int (length (healthy_servers s)))),
      s\<lparr>current_index := current_index s + 1,
        sticky_sessions := (sticky_sessions s)
          (session_id \<mapsto> healthy_servers s !
             nat (current_index s mod int (length (healthy_servers s))))\<rparr>)"
  by (simp add: assign_def round_robin_some)

text \<open>
  C2, affinity stability. When the session identifier has a recorded server and that
  server is healthy, \<^verbatim>\<open>_get_server\<close> returns it and the state after the call is the state
  before it: the cursor has not moved (no selection ran) and the table is unchanged.
\<close>

theorem affinity_stability:
  assumes "sticky_sessions s session_id = Some server"
    and "is_healthy (heap s server)"
  shows "get_server session_id s = (Some server, s)"
  using assms by (simp add: get_server_def)

theorem affinity_stability_witness:
  "sticky_sessions (init SERVERS_heap SERVERS\<lparr>sticky_sessions := [''abc'' \<mapsto> 2]\<rparr>) ''abc'' = Some 2
   \<and> is_healthy (heap (init SERVERS_heap SERVERS\<lparr>sticky_sessions := [''abc'' \<mapsto> 2]\<rparr>) 2)
   \<and> get_server ''abc'' (init SERVERS_heap SERVERS\<lparr>sticky_sessions := [''abc'' \<mapsto> 2]\<rparr>)
       = (Some 2, init SERVERS_heap SERVERS\<lparr>sticky_sessions := [''abc'' \<mapsto> 2]\<rparr>)"
  using affinity_stability
    [of "init SERVERS_heap SERVERS\<lparr>sticky_sessions := [''abc'' \<mapsto> 2]\<rparr>" "''abc''" 2]
  by (simp add: init_def SERVERS_heap_def)

text \<open>
  C3, affinity invalidation. When the recorded server of a session identifier is
  unhealthy, \<^verbatim>\<open>_get_server\<close> deletes the entry and selects. With no healthy server it
  returns nothing and the table is the old one without the entry. Otherwise it returns
  the round-robin selection, a healthy server of the pool and so not the stale one, and
  the table maps the session identifier to it; the cursor has advanced by one.
\<close>

theorem affinity_invalidation:
  assumes "sticky_sessions s session_id = Some stale"
    and "\<not> is_healthy (heap s stale)"
  shows "get_server session_id s =
           (if healthy_servers s = []
            then (None, s\<lparr>sticky_sessions := (sticky_sessions s)(session_id := None)\<rparr>)
            else (Some (healthy_servers s !
                          nat (current_index s mod int (length (healthy_servers s)))),
                  s\<lparr>current_index := current_index s + 1,
                    sticky_sessions := (sticky_sessions s)
                      (session_id \<mapsto> healthy_servers s !
                         nat (current_index s mod int (length (healthy_servers s))))\<rparr>))
         \<and> (healthy_servers s \<noteq> [] \<longrightarrow>
              healthy_servers s ! nat (current_index s mod int (length (healthy_servers s)))
                \<in> set (servers s)
              \<and> is_healthy (heap s (healthy_servers s !
                   nat (current_index s mod int (length (healthy_servers s)))))
              \<and> healthy_servers s ! nat (current_index s mod int (length (healthy_servers s)))
                  \<noteq> stale)
         \<and> sticky_sessions (snd (get_server session_id s)) session_id \<noteq> Some stale"
proof -
  let ?s' = "s\<lparr>sticky_sessions := (sticky_sessions s)(session_id := None)\<rparr>"
  let ?sel = "healthy_servers s ! nat (current_index s mod int (length (healthy_servers s)))"
  have fall: "get_server session_id s = assign session_id ?s'"
    using assms by (simp add: get_server_def)
  show ?thesis
  proof (cases "healthy_servers s = []")
    case True
    then have "get_server session_id s = (None, ?s')"
      using fall by (simp add: assign_none)
    with True show ?thesis by simp
  next
    case False
    have mem: "?sel \<in> set (healthy_servers s)"
      using False by (rule round_robin_selects)
    then have pool: "?sel \<in> set (servers s)"
      using healthy_servers_subset by blast
    have healthy: "is_healthy (heap s ?sel)"
      using mem by (rule healthy_servers_healthy)
    have differs: "?sel \<noteq> stale"
      using healthy assms(2) by auto
    have "get_server session_id s =
            (Some ?sel, s\<lparr>current_index := current_index s + 1,
                          sticky_sessions := (sticky_sessions s)(session_id \<mapsto> ?sel)\<rparr>)"
      using fall False by (simp add: assign_some)
    with False pool healthy differs show ?thesis by simp
  qed
qed

text \<open>
  Session \<open>abc\<close> is recorded on server 1. With server 1 down and the others up the next
  lookup moves the session to server 0; with every server down it returns nothing and
  the entry is gone.
\<close>

theorem affinity_invalidation_witness:
  "get_server ''abc''
     (init (SERVERS_heap(1 := SERVERS_down 1)) SERVERS\<lparr>sticky_sessions := [''abc'' \<mapsto> 1]\<rparr>)
   = (Some 0, init (SERVERS_heap(1 := SERVERS_down 1)) SERVERS
                \<lparr>current_index := 1, sticky_sessions := [''abc'' \<mapsto> 0]\<rparr>)
   \<and> get_server ''abc'' (init SERVERS_down SERVERS\<lparr>sticky_sessions := [''abc'' \<mapsto> 1]\<rparr>)
   = (None, init SERVERS_down SERVERS)"
  using affinity_invalidation
    [of "init (SERVERS_heap(1 := SERVERS_down 1)) SERVERS\<lparr>sticky_sessions := [''abc'' \<mapsto> 1]\<rparr>"
        "''abc''" 1]
    affinity_invalidation
    [of "init SERVERS_down SERVERS\<lparr>sticky_sessions := [''abc'' \<mapsto> 1]\<rparr>" "''abc''" 1]
  by (simp add: healthy_servers_def init_def SERVERS_def SERVERS_heap_def SERVERS_down_def)

subsection \<open>What the operations leave alone\<close>

lemma round_robin_frame:
  "servers (snd (round_robin s)) = servers s
   \<and> heap (snd (round_robin s)) = heap s
   \<and> sticky_sessions (snd (round_robin s)) = sticky_sessions s"
  by (simp add: round_robin_def Let_def)

lemma round_robin_result:
  assumes "fst (round_robin s) = Some server"
  shows "server \<in> set (servers s) \<and> is_healthy (heap s server)"
proof -
  have ne: "healthy_servers s \<noteq> []"
    using assms by (auto simp: round_robin_def Let_def split: if_splits)
  then have "server = healthy_servers s ! nat (current_index s mod int (length (healthy_servers s)))"
    using assms by (simp add: round_robin_some)
  then have "server \<in> set (healthy_servers s)"
    using round_robin_selects [OF ne] by simp
  then show ?thesis
    using healthy_servers_subset healthy_servers_healthy by blast
qed

lemma assign_frame:
  "servers (snd (assign session_id s)) = servers s
   \<and> heap (snd (assign session_id s)) = heap s"
  by (cases "healthy_servers s = []") (simp_all add: assign_none assign_some)

lemma assign_sticky:
  "sticky_sessions (snd (assign session_id s)) =
     (case fst (round_robin s) of
        None \<Rightarrow> sticky_sessions s
      | Some server \<Rightarrow> (sticky_sessions s)(session_id \<mapsto> server))"
  by (cases "healthy_servers s = []") (simp_all add: assign_none assign_some round_robin_none round_robin_some)

lemma get_server_frame:
  "servers (snd (get_server session_id s)) = servers s
   \<and> heap (snd (get_server session_id s)) = heap s"
  by (simp add: get_server_def assign_frame split: option.split)

lemma ran_upd_subset:
  assumes "ran m \<subseteq> A" and "v \<in> A"
  shows "ran (m(k \<mapsto> v)) \<subseteq> A"
  using assms by (auto simp: ran_def split: if_splits)

lemma ran_del_subset:
  assumes "ran m \<subseteq> A"
  shows "ran (m(k := None)) \<subseteq> A"
  using assms by (auto simp: ran_def split: if_splits)

lemma assign_inv:
  assumes "ran (sticky_sessions s) \<subseteq> set (servers s)"
  shows "ran (sticky_sessions (snd (assign session_id s))) \<subseteq> set (servers s)"
proof (cases "fst (round_robin s)")
  case None
  then show ?thesis using assms by (simp add: assign_sticky)
next
  case (Some server)
  then have "server \<in> set (servers s)"
    using round_robin_result by blast
  then show ?thesis
    using assms Some by (simp add: assign_sticky ran_upd_subset)
qed

lemma get_server_inv:
  assumes "ran (sticky_sessions s) \<subseteq> set (servers s)"
  shows "ran (sticky_sessions (snd (get_server session_id s))) \<subseteq> set (servers s)"
proof (cases "sticky_sessions s session_id")
  case None
  then show ?thesis
    using assign_inv [OF assms] by (simp add: get_server_def)
next
  case (Some server)
  let ?s' = "s\<lparr>sticky_sessions := (sticky_sessions s)(session_id := None)\<rparr>"
  have "ran (sticky_sessions ?s') \<subseteq> set (servers ?s')"
    using assms by (simp add: ran_del_subset)
  then have "ran (sticky_sessions (snd (assign session_id ?s'))) \<subseteq> set (servers ?s')"
    by (rule assign_inv)
  then show ?thesis
    using Some assms by (simp add: get_server_def)
qed

lemma set_healthy_frame:
  "servers (set_healthy server b s) = servers s
   \<and> sticky_sessions (set_healthy server b s) = sticky_sessions s
   \<and> current_index (set_healthy server b s) = current_index s"
  by (simp add: set_healthy_def)

lemma check_health_frame:
  "servers (check_health get server s) = servers s
   \<and> sticky_sessions (check_health get server s) = sticky_sessions s
   \<and> current_index (check_health get server s) = current_index s"
  by (simp add: check_health_def set_healthy_frame split: sum.split)

lemma fold_check_health_frame:
  "servers (fold (check_health get) rs s) = servers s
   \<and> sticky_sessions (fold (check_health get) rs s) = sticky_sessions s
   \<and> current_index (fold (check_health get) rs s) = current_index s"
  by (induction rs arbitrary: s) (simp_all add: check_health_frame)

lemma health_check_tick_frame:
  "servers (health_check_tick get s) = servers s
   \<and> sticky_sessions (health_check_tick get s) = sticky_sessions s
   \<and> current_index (health_check_tick get s) = current_index s"
  by (simp add: health_check_tick_def fold_check_health_frame)

lemma select_server_frame:
  "servers (snd (select_server request s)) = servers s
   \<and> heap (snd (select_server request s)) = heap s"
  by (simp add: select_server_def get_server_frame round_robin_frame split: option.split)

lemma select_server_inv:
  assumes "ran (sticky_sessions s) \<subseteq> set (servers s)"
  shows "ran (sticky_sessions (snd (select_server request s))) \<subseteq> set (servers s)"
  using assms get_server_inv [OF assms]
  by (simp add: select_server_def round_robin_frame split: option.split)

lemma handle_request_state:
  "snd (snd (handle_request net request s)) = snd (select_server request s)"
  by (simp add: handle_request_def split: prod.split option.split)

lemma step_servers: "servers (step operation s) = servers s"
  by (cases operation)
     (simp_all add: round_robin_frame get_server_frame check_health_frame
        health_check_tick_frame handle_request_state select_server_frame)

lemma step_inv:
  assumes "ran (sticky_sessions s) \<subseteq> set (servers s)"
  shows "ran (sticky_sessions (step operation s)) \<subseteq> set (servers (step operation s))"
  unfolding step_servers
  using assms get_server_inv [OF assms] select_server_inv [OF assms]
  by (cases operation)
     (simp_all add: round_robin_frame check_health_frame health_check_tick_frame
        handle_request_state)

lemma run_servers: "servers (run ops s) = servers s"
  unfolding run_def by (induction ops arbitrary: s) (simp_all add: step_servers)

lemma run_inv:
  assumes "ran (sticky_sessions s) \<subseteq> set (servers s)"
  shows "ran (sticky_sessions (run ops s)) \<subseteq> set (servers s)"
  using assms unfolding run_def
proof (induction ops arbitrary: s)
  case Nil
  then show ?case by simp
next
  case (Cons operation ops)
  have "ran (sticky_sessions (step operation s)) \<subseteq> set (servers (step operation s))"
    using Cons.prems by (rule step_inv)
  then have "ran (sticky_sessions (fold step ops (step operation s)))
             \<subseteq> set (servers (step operation s))"
    by (rule Cons.IH)
  then show ?case by (simp add: step_servers)
qed

lemma init_inv: "ran (sticky_sessions (init h pool)) \<subseteq> set (servers (init h pool))"
  by (simp add: init_def)

lemma reachable_inv:
  "ran (sticky_sessions (run ops (init h pool))) \<subseteq> set (servers (run ops (init h pool)))"
  using run_inv [OF init_inv] by (simp add: run_servers)

text \<open>
  C10, membership invariant of the sticky table. Every server stored in the table is a
  member of the pool. The invariant holds in the state \<^verbatim>\<open>__init__\<close> builds (the table is
  empty), each operation (round-robin selection, affinity lookup, a health check, a pass
  of the health-check loop, handling a request) preserves it and leaves the pool as it
  is, and so it holds after every run of operations from the initial state.
\<close>

theorem sticky_sessions_in_pool:
  "ran (sticky_sessions (init h pool)) \<subseteq> set (servers (init h pool))
   \<and> (ran (sticky_sessions s) \<subseteq> set (servers s) \<longrightarrow>
        ran (sticky_sessions (step operation s)) \<subseteq> set (servers (step operation s))
        \<and> servers (step operation s) = servers s)
   \<and> ran (sticky_sessions (run ops (init h pool))) \<subseteq> set pool
   \<and> servers (run ops (init h pool)) = pool"
proof -
  have "servers (run ops (init h pool)) = pool"
    by (simp add: run_servers init_def)
  then show ?thesis
    using init_inv [of h pool] step_inv [of s operation] step_servers [of operation s]
      reachable_inv [of ops h pool]
    by simp
qed

text \<open>
  Two sessions are assigned and a health check fails in between: both entries of the
  table are servers of the pool.
\<close>

theorem sticky_sessions_in_pool_witness:
  "ran (sticky_sessions (init SERVERS_heap SERVERS)) \<subseteq> set (servers (init SERVERS_heap SERVERS))
   \<and> ran (sticky_sessions (step (GetServer ''abc'') (init SERVERS_heap SERVERS)))
       \<subseteq> set (servers (step (GetServer ''abc'') (init SERVERS_heap SERVERS)))
   \<and> sticky_sessions (step (GetServer ''abc'') (init SERVERS_heap SERVERS)) ''abc'' = Some 0
   \<and> ran (sticky_sessions
        (run [GetServer ''abc'', CheckHealth probe_timeout 1, GetServer ''xyz'']
           (init SERVERS_heap SERVERS))) \<subseteq> set SERVERS"
proof -
  have assigned: "sticky_sessions (step (GetServer ''abc'') (init SERVERS_heap SERVERS)) ''abc'' = Some 0"
    by (simp add: get_server_def assign_def round_robin_def healthy_servers_def init_def
        SERVERS_def SERVERS_heap_def)
  show ?thesis
    using assigned
      sticky_sessions_in_pool [of SERVERS_heap SERVERS "init SERVERS_heap SERVERS"
        "GetServer ''abc''" "[GetServer ''abc'', CheckHealth probe_timeout 1, GetServer ''xyz'']"]
    by blast
qed

subsection \<open>No healthy server\<close>

lemma healthy_servers_empty:
  "(healthy_servers s = []) = (\<forall>server\<in>set (servers s). \<not> is_healthy (heap s server))"
  by (auto simp: healthy_servers_def filter_empty_conv)

lemma get_server_none:
  assumes inv: "ran (sticky_sessions s) \<subseteq> set (servers s)"
    and down: "healthy_servers s = []"
  shows "get_server session_id s =
           (None, s\<lparr>sticky_sessions := (sticky_sessions s)(session_id := None)\<rparr>)"
proof (cases "sticky_sessions s session_id")
  case None
  then have "(sticky_sessions s)(session_id := None) = sticky_sessions s"
    by (simp add: fun_upd_idem)
  then show ?thesis
    using None down by (simp add: get_server_def assign_none)
next
  case (Some server)
  then have "server \<in> ran (sticky_sessions s)"
    by (auto simp: ran_def)
  then have "server \<in> set (servers s)"
    using inv by blast
  then have "\<not> is_healthy (heap s server)"
    using down by (simp add: healthy_servers_empty)
  then show ?thesis
    using Some down by (simp add: get_server_def assign_none)
qed

lemma select_server_none:
  assumes "ran (sticky_sessions s) \<subseteq> set (servers s)"
    and "healthy_servers s = []"
  shows "fst (select_server request s) = None"
  using assms
  by (simp add: select_server_def get_server_none round_robin_none split: option.split)

lemma handle_request_none:
  assumes "fst (select_server request s) = None"
  shows "fst (handle_request net request s) = no_servers_available
         \<and> fst (snd (handle_request net request s)) = []"
  using assms by (cases "select_server request s") (simp add: handle_request_def)

text \<open>
  C4, no-backend fallback. In every state the balancer reaches from its initial state,
  if every server of the pool is unhealthy then \<^verbatim>\<open>_round_robin\<close> returns nothing,
  \<^verbatim>\<open>_get_server\<close> returns nothing for every session identifier (a recorded entry is a
  server of the pool, so it is stale, and is deleted), and \<^verbatim>\<open>handle_request\<close> returns the
  fixed response with status 503 whatever the request and the network, having issued no
  outbound call.
\<close>

theorem no_backend_fallback:
  assumes "s = run ops (init h pool)"
    and "\<forall>server\<in>set (servers s). \<not> is_healthy (heap s server)"
  shows "round_robin s = (None, s)
         \<and> get_server session_id s =
             (None, s\<lparr>sticky_sessions := (sticky_sessions s)(session_id := None)\<rparr>)
         \<and> fst (handle_request net request s) = no_servers_available
         \<and> body (fst (handle_request net request s)) = ''No servers available''
         \<and> status (fst (handle_request net request s)) = 503
         \<and> fst (snd (handle_request net request s)) = []"
proof -
  have inv: "ran (sticky_sessions s) \<subseteq> set (servers s)"
    unfolding assms(1) by (rule reachable_inv)
  have down: "healthy_servers s = []"
    using assms(2) by (simp add: healthy_servers_empty)
  have sel: "fst (select_server request s) = None"
    using inv down by (rule select_server_none)
  show ?thesis
    using round_robin_none [OF down] get_server_none [OF inv down]
      handle_request_none [OF sel]
    by (simp add: no_servers_available_def)
qed

text \<open>
  Session \<open>abc\<close> is assigned, then a pass of the health-check loop times out on every
  server: the next request of the session gets the 503 and no call goes out.
\<close>

theorem no_backend_fallback_witness:
  "servers (run [GetServer ''abc'', HealthCheckTick probe_timeout] (init SERVERS_heap SERVERS))
     = [0, 1, 2]
   \<and> \<not> is_healthy (heap (run [GetServer ''abc'', HealthCheckTick probe_timeout]
                            (init SERVERS_heap SERVERS)) 0)
   \<and> \<not> is_healthy (heap (run [GetServer ''abc'', HealthCheckTick probe_timeout]
                            (init SERVERS_heap SERVERS)) 1)
   \<and> \<not> is_healthy (heap (run [GetServer ''abc'', HealthCheckTick probe_timeout]
                            (init SERVERS_heap SERVERS)) 2)
   \<and> sticky_sessions (run [GetServer ''abc'', HealthCheckTick probe_timeout]
                         (init SERVERS_heap SERVERS)) ''abc'' = Some 0
   \<and> fst (get_server ''abc'' (run [GetServer ''abc'', HealthCheckTick probe_timeout]
                                (init SERVERS_heap SERVERS))) = None
   \<and> status (fst (handle_request (net_respond \<lparr>cr_status = 200, cr_headers = [], cr_body = []\<rparr>)
                    (get_request [] (Some ''abc'') None)
                    (run [GetServer ''abc'', HealthCheckTick probe_timeout]
                       (init SERVERS_heap SERVERS)))) = 503
   \<and> fst (snd (handle_request (net_respond \<lparr>cr_status = 200, cr_headers = [], cr_body = []\<rparr>)
                 (get_request [] (Some ''abc'') None)
                 (run [GetServer ''abc'', HealthCheckTick probe_timeout]
                    (init SERVERS_heap SERVERS)))) = []"
proof -
  have state:
    "servers (run [GetServer ''abc'', HealthCheckTick probe_timeout] (init SERVERS_heap SERVERS))
       = [0, 1, 2]
     \<and> \<not> is_healthy (heap (run [GetServer ''abc'', HealthCheckTick probe_timeout]
                              (init SERVERS_heap SERVERS)) 0)
     \<and> \<not> is_healthy (heap (run [GetServer ''abc'', HealthCheckTick probe_timeout]
                              (init SERVERS_heap SERVERS)) 1)
     \<and> \<not> is_healthy (heap (run [GetServer ''abc'', HealthCheckTick probe_timeout]
                              (init SERVERS_heap SERVERS)) 2)
     \<and> sticky_sessions (run [GetServer ''abc'', HealthCheckTick probe_timeout]
                           (init SERVERS_heap SERVERS)) ''abc'' = Some 0"
    by (simp add: run_def get_server_def assign_def round_robin_def healthy_servers_def
        health_check_tick_def check_health_def set_healthy_def probe_timeout_def
        init_def SERVERS_def SERVERS_heap_def)
  then have down:
    "\<forall>server\<in>set (servers (run [GetServer ''abc'', HealthCheckTick probe_timeout]
                             (init SERVERS_heap SERVERS))).
      \<not> is_healthy (heap (run [GetServer ''abc'', HealthCheckTick probe_timeout]
                            (init SERVERS_heap SERVERS)) server)"
    by simp
  show ?thesis
    using state
      no_backend_fallback [OF refl down, of "''abc''"
        "net_respond \<lparr>cr_status = 200, cr_headers = [], cr_body = []\<rparr>"
        "get_request [] (Some ''abc'') None"]
    by (simp add: no_servers_available_def)
qed

subsection \<open>The health flag\<close>

text \<open>
  C6, health-check postcondition. The claim makes the flag true exactly when a response
  with a success status code arrives. The code tests \<^verbatim>\<open>response.status == 200\<close>: a
  backend that answers its health endpoint with 204, a success status code, is marked
  unhealthy.
\<close>

theorem check_health_counterexample:
  "spec_success_status 204
   \<and> is_healthy (heap (init SERVERS_heap SERVERS) 0)
   \<and> \<not> is_healthy (heap (check_health (probe_status 204) 0 (init SERVERS_heap SERVERS)) 0)"
  by (simp add: spec_success_status_def check_health_def set_healthy_def probe_status_def
      init_def SERVERS_heap_def)

text \<open>
  C6 as amended: a health check of a server sets its flag to true if and only if the
  call to its health endpoint delivers a response with status exactly 200; every other
  outcome (an exception such as a timeout or a connection error, or any other status,
  other 2xx codes included) sets it to false. The check always returns a state (no
  exception leaves it), and that state differs from the one before in nothing but the
  flag of that server: host and port of the server, every other object of the store, the
  pool, the cursor and the sticky table are as before.
\<close>

theorem check_health_postcondition:
  "check_health get server s =
     s\<lparr>heap := (heap s)(server := (heap s server)
          \<lparr>is_healthy := (get (url (heap s server) @ ''/health'') = Inr 200)\<rparr>)\<rparr>
   \<and> is_healthy (heap (check_health get server s) server)
       = (get (url (heap s server) @ ''/health'') = Inr 200)"
  by (cases "get (url (heap s server) @ ''/health'')")
     (simp_all add: check_health_def set_healthy_def)

text \<open>
  Server 0 answers 200 and stays healthy; server 1 times out and is marked unhealthy, and
  server 0 is not touched by that check.
\<close>

theorem check_health_postcondition_witness:
  "is_healthy (heap (check_health (probe_status 200) 0 (init SERVERS_down SERVERS)) 0)
   \<and> \<not> is_healthy (heap (check_health probe_timeout 1 (init SERVERS_heap SERVERS)) 1)
   \<and> is_healthy (heap (check_health probe_timeout 1 (init SERVERS_heap SERVERS)) 0)"
  using check_health_postcondition [of "probe_status 200" 0 "init SERVERS_down SERVERS"]
    check_health_postcondition [of probe_timeout 1 "init SERVERS_heap SERVERS"]
  by (simp add: probe_status_def probe_timeout_def init_def SERVERS_heap_def)

subsection \<open>Requests without a session identifier\<close>

lemma get_session_id_empty:
  "(get_session_id request = None \<or> get_session_id request = Some [])
   = ((cookies request ''session_id'' = None \<or> cookies request ''session_id'' = Some [])
      \<and> (remote request = None \<or> remote request = Some []))"
  by (auto simp: get_session_id_def split: option.splits if_splits)

lemma round_robin_sticky_independent:
  "round_robin (s\<lparr>sticky_sessions := t\<rparr>) =
     (fst (round_robin s), (snd (round_robin s))\<lparr>sticky_sessions := t\<rparr>)"
  by (simp add: round_robin_def Let_def)

lemma select_server_anonymous:
  assumes "get_session_id request = None \<or> get_session_id request = Some []"
  shows "select_server request s = round_robin s"
  using assms by (auto simp: select_server_def)

text \<open>
  C9, anonymous requests. The claim counts an empty cookie value among the cases without
  a session identifier. \<^verbatim>\<open>_get_session_id\<close> falls back to the client address when the
  cookie is empty, so a request with an empty cookie from 10.0.0.1 is keyed by that
  address: while the cursor points at server 0 the table is read and the request goes to
  server 2, recorded for the address; on an empty table the address is written to it.
\<close>

theorem anonymous_request_counterexample:
  "cookies (get_request [] (Some []) (Some ''10.0.0.1'')) ''session_id'' = Some []
   \<and> get_session_id (get_request [] (Some []) (Some ''10.0.0.1'')) = Some ''10.0.0.1''
   \<and> fst (round_robin (init SERVERS_heap SERVERS\<lparr>sticky_sessions := [''10.0.0.1'' \<mapsto> 2]\<rparr>))
       = Some 0
   \<and> map out_url (fst (snd (handle_request net_refuse
          (get_request [] (Some []) (Some ''10.0.0.1''))
          (init SERVERS_heap SERVERS\<lparr>sticky_sessions := [''10.0.0.1'' \<mapsto> 2]\<rparr>))))
       = [''http://localhost:8003/'']
   \<and> sticky_sessions (snd (snd (handle_request net_refuse
          (get_request [] (Some []) (Some ''10.0.0.1'')) (init SERVERS_heap SERVERS))))
       = [''10.0.0.1'' \<mapsto> 0]"
  by (simp add: handle_request_def select_server_def get_session_id_def get_request_def
      get_server_def assign_def round_robin_def healthy_servers_def proxy_def outbound_def
      net_refuse_def url_def str_int_def digits.simps init_def SERVERS_def SERVERS_heap_def)

text \<open>
  C9 as amended: \<^verbatim>\<open>_get_session_id\<close> yields \<^verbatim>\<open>None\<close> or the empty string exactly when the
  \<^verbatim>\<open>session_id\<close> cookie is absent or empty and the client address is absent or empty as
  well. For such a request \<^verbatim>\<open>handle_request\<close> selects by \<^verbatim>\<open>_round_robin\<close>: with no healthy
  server it answers 503, issues no call and changes nothing; otherwise it proxies to the
  server \<^verbatim>\<open>_round_robin\<close> returns and the cursor advances by one. The sticky table is not
  written: it is the same after the request. It is not read: whatever table the balancer
  holds, the response, the outbound calls and the rest of the state are the same.
\<close>

theorem anonymous_request_round_robin:
  "((get_session_id request = None \<or> get_session_id request = Some [])
      = ((cookies request ''session_id'' = None \<or> cookies request ''session_id'' = Some [])
         \<and> (remote request = None \<or> remote request = Some [])))
   \<and> (get_session_id request = None \<or> get_session_id request = Some [] \<longrightarrow>
        select_server request s = round_robin s
        \<and> handle_request net request s =
            (case fst (round_robin s) of
               None \<Rightarrow> (no_servers_available, [], s)
             | Some server \<Rightarrow>
                 (fst (proxy net (heap s server) request),
                  snd (proxy net (heap s server) request),
                  s\<lparr>current_index := current_index s + 1\<rparr>))
        \<and> sticky_sessions (snd (snd (handle_request net request s))) = sticky_sessions s
        \<and> handle_request net request (s\<lparr>sticky_sessions := t\<rparr>) =
            (fst (handle_request net request s),
             fst (snd (handle_request net request s)),
             (snd (snd (handle_request net request s)))\<lparr>sticky_sessions := t\<rparr>))"
proof (intro conjI impI)
  show "(get_session_id request = None \<or> get_session_id request = Some [])
        = ((cookies request ''session_id'' = None \<or> cookies request ''session_id'' = Some [])
           \<and> (remote request = None \<or> remote request = Some []))"
    by (rule get_session_id_empty)
next
  assume anonymous: "get_session_id request = None \<or> get_session_id request = Some []"
  then show "select_server request s = round_robin s"
    by (rule select_server_anonymous)
next
  assume anonymous: "get_session_id request = None \<or> get_session_id request = Some []"
  have sel: "select_server request s = round_robin s"
    using anonymous by (rule select_server_anonymous)
  show "handle_request net request s =
          (case fst (round_robin s) of
             None \<Rightarrow> (no_servers_available, [], s)
           | Some server \<Rightarrow>
               (fst (proxy net (heap s server) request),
                snd (proxy net (heap s server) request),
                s\<lparr>current_index := current_index s + 1\<rparr>))"
  proof (cases "healthy_servers s = []")
    case True
    then show ?thesis
      by (simp add: handle_request_def sel round_robin_none)
  next
    case False
    then show ?thesis
      by (simp add: handle_request_def sel round_robin_some split: prod.split)
  qed
next
  assume anonymous: "get_session_id request = None \<or> get_session_id request = Some []"
  have sel: "select_server request s = round_robin s"
    using anonymous by (rule select_server_anonymous)
  show "sticky_sessions (snd (snd (handle_request net request s))) = sticky_sessions s"
    by (simp add: handle_request_state sel round_robin_frame)
next
  assume anonymous: "get_session_id request = None \<or> get_session_id request = Some []"
  have sel: "select_server request s = round_robin s"
    using anonymous by (rule select_server_anonymous)
  have sel': "select_server request (s\<lparr>sticky_sessions := t\<rparr>) =
                (fst (round_robin s), (snd (round_robin s))\<lparr>sticky_sessions := t\<rparr>)"
    using select_server_anonymous [OF anonymous, of "s\<lparr>sticky_sessions := t\<rparr>"]
    by (simp add: round_robin_sticky_independent)
  show "handle_request net request (s\<lparr>sticky_sessions := t\<rparr>) =
          (fst (handle_request net request s),
           fst (snd (handle_request net request s)),
           (snd (snd (handle_request net request s)))\<lparr>sticky_sessions := t\<rparr>)"
    by (cases "round_robin s")
       (simp add: handle_request_def sel sel' split: option.split prod.split)
qed

text \<open>
  A request with an empty \<^verbatim>\<open>session_id\<close> cookie and no client address, while session \<open>abc\<close>
  is recorded on server 2: the one call goes to server 0, where the cursor points, the
  answer of the backend is relayed, the cursor advances and the table still holds the one
  entry.
\<close>

theorem anonymous_request_round_robin_witness:
  "get_session_id (get_request [] (Some []) None) = None
   \<and> handle_request
       (net_respond \<lparr>cr_status = 200, cr_headers = [], cr_body = ''ok''\<rparr>)
       (get_request [] (Some []) None)
       (init SERVERS_heap SERVERS\<lparr>sticky_sessions := [''abc'' \<mapsto> 2]\<rparr>)
     = (\<lparr>body = ''ok'', status = 200, resp_headers = []\<rparr>,
        [\<lparr>out_method = ''GET'', out_url = ''http://localhost:8001/'', out_headers = [],
          out_data = None\<rparr>],
        init SERVERS_heap SERVERS\<lparr>current_index := 1, sticky_sessions := [''abc'' \<mapsto> 2]\<rparr>)"
proof -
  have anonymous: "get_session_id (get_request [] (Some []) None) = None"
    by (simp add: get_session_id_def get_request_def)
  then have hyp: "get_session_id (get_request [] (Some []) None) = None
                  \<or> get_session_id (get_request [] (Some []) None) = Some []"
    by simp
  note direct = anonymous_request_round_robin
    [of "get_request [] (Some []) None"
        "init SERVERS_heap SERVERS\<lparr>sticky_sessions := [''abc'' \<mapsto> 2]\<rparr>"
        "net_respond \<lparr>cr_status = 200, cr_headers = [], cr_body = ''ok''\<rparr>" Map.empty,
     THEN conjunct2, rule_format, OF hyp, THEN conjunct2, THEN conjunct1]
  have selected: "fst (round_robin (init SERVERS_heap SERVERS\<lparr>sticky_sessions := [''abc'' \<mapsto> 2]\<rparr>))
                  = Some 0"
    by (simp add: round_robin_def healthy_servers_def init_def SERVERS_def SERVERS_heap_def)
  have proxied:
    "proxy (net_respond \<lparr>cr_status = 200, cr_headers = [], cr_body = ''ok''\<rparr>)
       (heap (init SERVERS_heap SERVERS\<lparr>sticky_sessions := [''abc'' \<mapsto> 2]\<rparr>) 0)
       (get_request [] (Some []) None)
     = (\<lparr>body = ''ok'', status = 200, resp_headers = []\<rparr>,
        [\<lparr>out_method = ''GET'', out_url = ''http://localhost:8001/'', out_headers = [],
          out_data = None\<rparr>])"
    by (simp add: proxy_def outbound_def get_request_def forward_headers_def
        dict_of_headers_def net_respond_def url_def str_int_def digits.simps
        init_def SERVERS_heap_def)
  have handled:
    "handle_request
       (net_respond \<lparr>cr_status = 200, cr_headers = [], cr_body = ''ok''\<rparr>)
       (get_request [] (Some []) None)
       (init SERVERS_heap SERVERS\<lparr>sticky_sessions := [''abc'' \<mapsto> 2]\<rparr>)
     = (\<lparr>body = ''ok'', status = 200, resp_headers = []\<rparr>,
        [\<lparr>out_method = ''GET'', out_url = ''http://localhost:8001/'', out_headers = [],
          out_data = None\<rparr>],
        init SERVERS_heap SERVERS\<lparr>sticky_sessions := [''abc'' \<mapsto> 2]\<rparr>
          \<lparr>current_index :=
             current_index (init SERVERS_heap SERVERS\<lparr>sticky_sessions := [''abc'' \<mapsto> 2]\<rparr>) + 1\<rparr>)"
    by (simp only: direct selected option.case proxied fst_conv snd_conv)
  show ?thesis
    using anonymous by (simp add: handled) (simp add: init_def)
qed

subsection \<open>Dictionaries built from header lines\<close>

lemma update_fresh:
  "k \<notin> fst ` set al \<Longrightarrow> AList.update k v al = al @ [(k, v)]"
  by (induction al) auto

lemma forward_headers_snoc:
  "forward_headers (items @ [(k, v)]) =
     (if lower k \<noteq> ''host'' then AList.update k v (forward_headers items)
      else forward_headers items)"
  by (simp add: forward_headers_def)

lemma spec_forward_headers_snoc:
  "spec_forward_headers (items @ [(k, v)]) =
     (if lower k \<noteq> ''host'' then spec_forward_headers items @ [(k, v)]
      else spec_forward_headers items)"
  by (simp add: spec_forward_headers_def)

lemma forward_headers_map_of:
  "map_of (forward_headers items) = map_of (rev (spec_forward_headers items))"
proof (induction items rule: rev_induct)
  case Nil
  show ?case by (simp add: forward_headers_def spec_forward_headers_def)
next
  case (snoc x items)
  obtain k v where x: "x = (k, v)" by (cases x)
  show ?case
    unfolding x forward_headers_snoc spec_forward_headers_snoc
    using snoc.IH by (simp add: update_conv')
qed

lemma forward_headers_distinct: "distinct (map fst (forward_headers items))"
proof (induction items rule: rev_induct)
  case Nil
  show ?case by (simp add: forward_headers_def)
next
  case (snoc x items)
  obtain k v where x: "x = (k, v)" by (cases x)
  show ?case
    unfolding x forward_headers_snoc
    using snoc.IH by (simp add: distinct_update)
qed

lemma forward_headers_names:
  "fst ` set (forward_headers items) = fst ` set (spec_forward_headers items)"
proof (induction items rule: rev_induct)
  case Nil
  show ?case by (simp add: forward_headers_def spec_forward_headers_def)
next
  case (snoc x items)
  obtain k v where x: "x = (k, v)" by (cases x)
  show ?case
    unfolding x forward_headers_snoc spec_forward_headers_snoc
    using snoc.IH by (simp add: dom_update)
qed

lemma forward_headers_no_host:
  assumes "(k, v) \<in> set (forward_headers items)"
  shows "lower k \<noteq> ''host''"
proof -
  have "k \<in> fst ` set (forward_headers items)"
    using assms by force
  then have "k \<in> fst ` set (spec_forward_headers items)"
    by (simp add: forward_headers_names)
  then show ?thesis
    by (auto simp: spec_forward_headers_def)
qed

lemma forward_headers_exact:
  "distinct (map fst (spec_forward_headers items)) \<Longrightarrow>
   forward_headers items = spec_forward_headers items"
proof (induction items rule: rev_induct)
  case Nil
  show ?case by (simp add: forward_headers_def spec_forward_headers_def)
next
  case (snoc x items)
  obtain k v where x: "x = (k, v)" by (cases x)
  show ?case
  proof (cases "lower k \<noteq> ''host''")
    case True
    have d: "distinct (map fst (spec_forward_headers items))"
      and fresh: "k \<notin> fst ` set (spec_forward_headers items)"
      using snoc.prems True unfolding x spec_forward_headers_snoc by auto
    have "forward_headers items = spec_forward_headers items"
      using d by (rule snoc.IH)
    then show ?thesis
      unfolding x forward_headers_snoc spec_forward_headers_snoc
      using True fresh by (simp add: update_fresh)
  next
    case False
    then have "distinct (map fst (spec_forward_headers items))"
      using snoc.prems unfolding x spec_forward_headers_snoc by simp
    then have "forward_headers items = spec_forward_headers items"
      by (rule snoc.IH)
    then show ?thesis
      unfolding x forward_headers_snoc spec_forward_headers_snoc
      using False by simp
  qed
qed

subsection \<open>The outbound request\<close>

lemma handle_request_selected:
  assumes "fst (select_server request s) = Some server"
  shows "fst (handle_request net request s) = fst (proxy net (heap s server) request)
         \<and> fst (snd (handle_request net request s)) = snd (proxy net (heap s server) request)"
proof -
  obtain s' where sel: "select_server request s = (Some server, s')"
    using assms by (cases "select_server request s") simp
  have "heap s' = heap s"
    using select_server_frame [of request s] sel by simp
  then show ?thesis
    by (simp add: handle_request_def sel split: prod.split)
qed

lemma handle_request_call:
  assumes "call \<in> set (fst (snd (handle_request net request s)))"
  shows "\<exists>server. fst (select_server request s) = Some server
                  \<and> outbound (heap s server) request = Inr call"
proof (cases "fst (select_server request s)")
  case None
  then show ?thesis
    using assms handle_request_none [of request s net] by simp
next
  case (Some server)
  then have "call \<in> set (snd (proxy net (heap s server) request))"
    using assms handle_request_selected by simp
  then have "outbound (heap s server) request = Inr call"
    by (auto simp: proxy_def split: sum.splits)
  then show ?thesis
    using Some by simp
qed

lemma outbound_shape:
  assumes "outbound server request = Inr call"
  shows "out_method call = http_method request
         \<and> out_url call = url server @ path_qs request
         \<and> out_headers call = forward_headers (headers request)
         \<and> (case out_data call of
               None \<Rightarrow> \<not> body_exists request
             | Some b \<Rightarrow> body_exists request \<and> read_body request = Inr b)"
  using assms by (auto simp: outbound_def split: if_splits sum.splits)

text \<open>
  C7, forwarding shape and Host stripping. The claim makes the outbound headers exactly
  the inbound ones minus Host. The code collects them in a dictionary, which holds one
  value per name: of two inbound \<open>Accept\<close> lines only the last reaches the backend.
\<close>

theorem forwarding_shape_counterexample:
  "map out_headers
     (fst (snd (handle_request net_refuse
        (get_request [(''Host'', ''localhost:8000''), (''Accept'', ''text/html''),
                      (''Accept'', ''text/plain'')] None (Some ''10.0.0.1''))
        (init SERVERS_heap SERVERS))))
   = [[(''Accept'', ''text/plain'')]]
   \<and> spec_forward_headers
       (headers (get_request [(''Host'', ''localhost:8000''), (''Accept'', ''text/html''),
                              (''Accept'', ''text/plain'')] None (Some ''10.0.0.1'')))
   = [(''Accept'', ''text/html''), (''Accept'', ''text/plain'')]"
  by (simp add: handle_request_def select_server_def get_session_id_def get_request_def
      get_server_def assign_def round_robin_def healthy_servers_def proxy_def outbound_def
      forward_headers_def spec_forward_headers_def lower_def lower_char_def net_refuse_def
      init_def SERVERS_def SERVERS_heap_def)

text \<open>
  C7 as amended: an outbound call that \<^verbatim>\<open>handle_request\<close> issues is the only one of that
  request; it goes to the selected server, with the inbound method, the URL of the server
  followed by the inbound path and query string, and the inbound body if there is one
  (no data otherwise). Its headers are a dictionary: no name occurs twice, no name is
  Host in any letter case, and a name other than Host carries the value of the last
  inbound line of that exact name. When no name other than Host is repeated among the
  inbound lines, the outbound headers are exactly the inbound lines minus Host, in order.
\<close>

theorem forwarding_shape:
  assumes "call \<in> set (fst (snd (handle_request net request s)))"
  shows "fst (snd (handle_request net request s)) = [call]
         \<and> (\<exists>server. fst (select_server request s) = Some server
               \<and> out_url call = url (heap s server) @ path_qs request)
         \<and> out_method call = http_method request
         \<and> (case out_data call of
               None \<Rightarrow> \<not> body_exists request
             | Some b \<Rightarrow> body_exists request \<and> read_body request = Inr b)
         \<and> distinct (map fst (out_headers call))
         \<and> (\<forall>(k, v)\<in>set (out_headers call). lower k \<noteq> ''host'')
         \<and> map_of (out_headers call) = map_of (rev (spec_forward_headers (headers request)))
         \<and> (distinct (map fst (spec_forward_headers (headers request))) \<longrightarrow>
              out_headers call = spec_forward_headers (headers request))"
proof -
  obtain server where sel: "fst (select_server request s) = Some server"
    and out: "outbound (heap s server) request = Inr call"
    using handle_request_call [OF assms] by blast
  have "fst (snd (handle_request net request s)) = snd (proxy net (heap s server) request)"
    using handle_request_selected [OF sel] by simp
  then have only: "fst (snd (handle_request net request s)) = [call]"
    using out by (simp add: proxy_def split: sum.split)
  note shape = outbound_shape [OF out]
  have hs: "out_headers call = forward_headers (headers request)"
    using shape by simp
  have no_host: "\<forall>(k, v)\<in>set (out_headers call). lower k \<noteq> ''host''"
    unfolding hs using forward_headers_no_host by blast
  have exact: "distinct (map fst (spec_forward_headers (headers request))) \<longrightarrow>
                 out_headers call = spec_forward_headers (headers request)"
    unfolding hs using forward_headers_exact by blast
  have u: "\<exists>server. fst (select_server request s) = Some server
             \<and> out_url call = url (heap s server) @ path_qs request"
    using sel shape by blast
  show ?thesis
    using only u shape no_host exact
    by (simp add: hs forward_headers_distinct forward_headers_map_of)
qed

text \<open>
  A \<^verbatim>\<open>GET /\<close> with a Host line and two other lines, on the pool of the source: one call, to
  server 0, with the two other lines.
\<close>

theorem forwarding_shape_witness:
  "fst (snd (handle_request net_refuse
      (get_request [(''Host'', ''localhost:8000''), (''Accept'', ''text/html''), (''X-Trace'', ''7'')]
         None (Some ''10.0.0.1''))
      (init SERVERS_heap SERVERS)))
   = [\<lparr>out_method = ''GET'', out_url = ''http://localhost:8001/'',
       out_headers = [(''Accept'', ''text/html''), (''X-Trace'', ''7'')], out_data = None\<rparr>]
   \<and> spec_forward_headers
       (headers (get_request [(''Host'', ''localhost:8000''), (''Accept'', ''text/html''),
                              (''X-Trace'', ''7'')] None (Some ''10.0.0.1'')))
   = [(''Accept'', ''text/html''), (''X-Trace'', ''7'')]"
proof -
  have calls:
    "fst (snd (handle_request net_refuse
        (get_request [(''Host'', ''localhost:8000''), (''Accept'', ''text/html''), (''X-Trace'', ''7'')]
           None (Some ''10.0.0.1''))
        (init SERVERS_heap SERVERS)))
     = [\<lparr>out_method = ''GET'', out_url = ''http://localhost:8001/'',
         out_headers = [(''Accept'', ''text/html''), (''X-Trace'', ''7'')], out_data = None\<rparr>]"
    by (simp add: handle_request_def select_server_def get_session_id_def get_request_def
        get_server_def assign_def round_robin_def healthy_servers_def proxy_def outbound_def
        forward_headers_def lower_def lower_char_def net_refuse_def url_def str_int_def
        digits.simps init_def SERVERS_def SERVERS_heap_def)
  then have mem:
    "\<lparr>out_method = ''GET'', out_url = ''http://localhost:8001/'',
      out_headers = [(''Accept'', ''text/html''), (''X-Trace'', ''7'')], out_data = None\<rparr>
     \<in> set (fst (snd (handle_request net_refuse
        (get_request [(''Host'', ''localhost:8000''), (''Accept'', ''text/html''), (''X-Trace'', ''7'')]
           None (Some ''10.0.0.1''))
        (init SERVERS_heap SERVERS))))"
    by simp
  have names: "distinct (map fst (spec_forward_headers
       (headers (get_request [(''Host'', ''localhost:8000''), (''Accept'', ''text/html''),
                              (''X-Trace'', ''7'')] None (Some ''10.0.0.1'')))))"
    by (simp add: spec_forward_headers_def get_request_def lower_def lower_char_def)
  show ?thesis
    using calls names forwarding_shape [OF mem] by simp
qed

subsection \<open>The relayed response\<close>














end
